theory Spec2Isabelle
  imports Complex_Main
begin

chapter \<open>The model\<close>

section \<open>Numbers\<close>

text \<open>
  The player computes with JavaScript numbers. They are modelled as real numbers: every
  operation is the exact one, without the rounding of IEEE doubles. Array lengths, loop
  counters and indices are integers, as they are in the source.
\<close>

definition Math_round :: "real \<Rightarrow> int" where
  \<comment> \<open>\<open>Math.round\<close>: the nearest integer, a half rounded up.\<close>
  "Math_round x = \<lfloor>x + 1 / 2\<rfloor>"

section \<open>Resampler (utils.js)\<close>

text \<open>
  One output value of the upsampling loop of \<open>resampleData\<close>, at loop index \<open>i\<close>.
  The loop runs only for \<open>targetLength > data.length \<ge> 1\<close>: the ratio has no zero
  divisor, and \<open>lower\<close> and \<open>upper\<close> are indices of the data unless the first test holds.
\<close>

definition upsample_at :: "real list \<Rightarrow> int \<Rightarrow> nat \<Rightarrow> real" where
  "upsample_at data targetLength i =
     (let ratio = (real (length data) - 1) / (real_of_int targetLength - 1);
          index = real i * ratio;
          lower = \<lfloor>index\<rfloor>;
          upper = \<lceil>index\<rceil>;
          fraction = index - real_of_int lower
      in if upper \<ge> int (length data) then data ! (length data - 1)
         else if lower = upper then data ! nat lower
         else data ! nat lower * (1 - fraction) + data ! nat upper * fraction)"

text \<open>
  The inner loop of the downsampling branch,
  \<^verbatim>\<open>for (let j = start; j <= end && j < data.length; j++)\<close>,
  carrying the running maximum and the number of elements visited.
  A read at a negative index gives \<open>undefined\<close> in the source, and the comparison with it
  is false.
\<close>

function bucket_scan :: "real list \<Rightarrow> int \<Rightarrow> int \<Rightarrow> real \<times> nat \<Rightarrow> real \<times> nat" where
  "bucket_scan data end j (mx, count) =
     (if j \<le> end \<and> j < int (length data)
      then bucket_scan data end (j + 1)
             (if 0 \<le> j \<and> data ! nat j > mx then data ! nat j else mx, count + 1)
      else (mx, count))"
  by pat_completeness auto
termination
  by (relation "measure (\<lambda>(data, end, j, acc). nat (int (length data) - j))") auto

declare bucket_scan.simps [simp del]

text \<open>
  The scan of bucket \<open>i\<close>: \<open>max\<close> and \<open>count\<close> start at 0, \<open>j\<close> runs from
  \<open>Math.floor(i * bucketSize)\<close> to \<open>Math.floor((i + 1) * bucketSize)\<close>.
\<close>

definition bucket_of :: "real list \<Rightarrow> int \<Rightarrow> nat \<Rightarrow> real \<times> nat" where
  "bucket_of data targetLength i =
     (let bucketSize = real (length data) / real_of_int targetLength;
          start = \<lfloor>real i * bucketSize\<rfloor>;
          end = \<lfloor>(real i + 1) * bucketSize\<rfloor>
      in bucket_scan data end start (0, 0))"

text \<open>
  One output value of the downsampling loop: the maximum of the bucket, or the nearest
  neighbour when the scan visited nothing.
\<close>

definition downsample_at :: "real list \<Rightarrow> int \<Rightarrow> nat \<Rightarrow> real" where
  "downsample_at data targetLength i =
     (let bucketSize = real (length data) / real_of_int targetLength;
          (mx, count) = bucket_of data targetLength i
      in if count = 0
         then data ! nat (min (Math_round (real i * bucketSize)) (int (length data) - 1))
         else mx)"

text \<open>
  \<open>resampleData(data, targetLength)\<close>. A loop \<open>for (i = 0; i < targetLength; i++)\<close> that
  pushes one value per round is a map over \<open>[0..<targetLength]\<close>; for a negative
  \<open>targetLength\<close> it has no round.
\<close>

definition resampleData :: "real list \<Rightarrow> int \<Rightarrow> real list" where
  "resampleData data targetLength =
     (if int (length data) = targetLength then data
      else if length data = 0 \<or> targetLength = 0 then []
      else if targetLength > int (length data)
      then map (upsample_at data targetLength) [0..<nat targetLength]
      else map (downsample_at data targetLength) [0..<nat targetLength])"

section \<open>Peak extractor (audio.js)\<close>

text \<open>
  A decoded \<open>AudioBuffer\<close>, as the code reads it: \<open>buffer.length\<close>,
  \<open>buffer.numberOfChannels\<close>, \<open>buffer.sampleRate\<close> and the channels that
  \<open>buffer.getChannelData(c)\<close> hands out.
\<close>

record AudioBuffer =
  buf_length :: nat
  numberOfChannels :: nat
  buf_sampleRate :: real
  channel_data :: "real list list"

text \<open>
  What a call does: it returns a value, it throws, or it never returns.
\<close>

datatype js_error = IndexSizeError

datatype 'a result = Return 'a | Throw js_error | Never_returns

definition getChannelData :: "AudioBuffer \<Rightarrow> nat \<Rightarrow> js_error + real list" where
  \<comment> \<open>The Web Audio method throws \<open>IndexSizeError\<close> for a channel that does not exist.\<close>
  "getChannelData buffer c =
     (if c < length (channel_data buffer) then Inr (channel_data buffer ! c)
      else Inl IndexSizeError)"
















section \<open>Onset and tempo detector (bpm.js)\<close>

text \<open>
  The energy loop of \<open>detectOnsets\<close>:
  \<^verbatim>\<open>for (let j = i; j < i + windowSize; j++) energy += channelData[j] * channelData[j]\<close>.
  The outer loop runs only while \<open>i < channelData.length - windowSize\<close>, so every \<open>j\<close>
  that is read is an index of the channel.
\<close>

function energy_loop :: "real list \<Rightarrow> nat \<Rightarrow> nat \<Rightarrow> real \<Rightarrow> real" where
  "energy_loop channelData end j energy =
     (if j < end
      then energy_loop channelData end (j + 1) (energy + channelData ! j * channelData ! j)
      else energy)"
  by pat_completeness auto
termination
  by (relation "measure (\<lambda>(channelData, end, j, energy). end - j)") auto

declare energy_loop.simps [simp del]

definition window_energy :: "real list \<Rightarrow> nat \<Rightarrow> real" where
  \<comment> \<open>\<open>windowSize\<close> is 2048.\<close>
  "window_energy channelData i = energy_loop channelData (i + 2048) i 0 / 2048"

text \<open>
  One round of the outer loop of \<open>detectOnsets\<close> on the onsets found so far:
  \<open>onsets[onsets.length - 1] || 0\<close> is 0 for an empty array.
\<close>

definition onset_step :: "real \<Rightarrow> nat \<Rightarrow> real \<Rightarrow> real \<Rightarrow> nat list \<Rightarrow> nat list" where
  "onset_step sampleRate i energy previousEnergy onsets =
     (let energyDiff = energy - previousEnergy;
          threshold = previousEnergy * (18 / 10) + 1 / 100
      in if energyDiff > threshold \<and> energy > 1 / 100
         then (let lastOnset = (if onsets = [] then 0 else last onsets);
                   minDistance = sampleRate * (15 / 100)
               in if real i - real lastOnset > minDistance then onsets @ [i] else onsets)
         else onsets)"

text \<open>
  The outer loop,
  \<^verbatim>\<open>for (let i = 0; i < channelData.length - windowSize; i += hopSize)\<close>,
  with \<open>hopSize\<close> 1024, carrying \<open>onsets\<close> and \<open>previousEnergy\<close>.
\<close>

function onset_loop :: "real list \<Rightarrow> real \<Rightarrow> nat \<Rightarrow> nat list \<times> real \<Rightarrow> nat list" where
  "onset_loop channelData sampleRate i (onsets, previousEnergy) =
     (if int i < int (length channelData) - 2048
      then (let energy = window_energy channelData i
            in onset_loop channelData sampleRate (i + 1024)
                 (onset_step sampleRate i energy previousEnergy onsets,
                  energy * (8 / 10) + previousEnergy * (2 / 10)))
      else onsets)"
  by pat_completeness auto
termination
  by (relation "measure (\<lambda>(channelData, sampleRate, i, acc). length channelData - i)") auto

declare onset_loop.simps [simp del]

definition detectOnsets :: "real list \<Rightarrow> real \<Rightarrow> nat list" where
  "detectOnsets channelData sampleRate = onset_loop channelData sampleRate 0 ([], 0)"

text \<open>
  The intervals between consecutive onsets, in seconds, and the bucket of an interval:
  the tempo \<open>60 / interval\<close> rounded to a multiple of 3.
\<close>

definition onset_intervals :: "nat list \<Rightarrow> real \<Rightarrow> real list" where
  "onset_intervals onsets sampleRate =
     map (\<lambda>i. (real (onsets ! i) - real (onsets ! (i - 1))) / sampleRate) [1..<length onsets]"

definition tempo_bucket :: "real \<Rightarrow> int" where
  "tempo_bucket interval = (let tempo = 60 / interval in Math_round (tempo / 3) * 3)"

text \<open>
  \<open>tempoGroups\<close> is an object whose keys are buckets, integers between 60 and 200.
  \<open>Object.entries\<close> lists integer keys in ascending order, whatever the order in which
  they were added, so the object is an association list kept in ascending key order.
  \<open>tempoGroups[bucket] = (tempoGroups[bucket] || 0) + 1\<close>:
\<close>

fun tempoGroups_add :: "int \<Rightarrow> (int \<times> nat) list \<Rightarrow> (int \<times> nat) list" where
  "tempoGroups_add bucket [] = [(bucket, 1)]"
| "tempoGroups_add bucket ((tempo, count) # rest) =
     (if bucket = tempo then (tempo, count + 1) # rest
      else if bucket < tempo then (bucket, 1) # (tempo, count) # rest
      else (tempo, count) # tempoGroups_add bucket rest)"

definition count_interval :: "real \<Rightarrow> (int \<times> nat) list \<Rightarrow> (int \<times> nat) list" where
  "count_interval interval tempoGroups =
     (let bucket = tempo_bucket interval
      in if bucket > 60 \<and> bucket < 200 then tempoGroups_add bucket tempoGroups
         else tempoGroups)"

definition has_votes :: "(int \<times> nat) list \<Rightarrow> int \<Rightarrow> bool" where
  \<comment> \<open>\<open>tempoGroups[k]\<close> as a condition: the key is there and its count is not 0.\<close>
  "has_votes tempoGroups k = (case map_of tempoGroups k of None \<Rightarrow> False | Some count \<Rightarrow> count \<noteq> 0)"

definition most_common :: "int \<times> nat \<Rightarrow> nat \<times> int \<Rightarrow> nat \<times> int" where
  \<comment> \<open>The body of the loop over \<open>Object.entries(tempoGroups)\<close>, on \<open>(maxCount, detectedBPM)\<close>.\<close>
  "most_common entry acc =
     (case (entry, acc) of
        ((tempo, count), (maxCount, detectedBPM)) \<Rightarrow>
          if count > maxCount then (count, tempo) else (maxCount, detectedBPM))"

definition octave_correction :: "(int \<times> nat) list \<Rightarrow> int \<Rightarrow> int" where
  "octave_correction tempoGroups detectedBPM =
     (if detectedBPM < 70 \<and> has_votes tempoGroups (detectedBPM * 2) then detectedBPM * 2
      else if detectedBPM > 160 \<and> has_votes tempoGroups (Math_round (real_of_int detectedBPM / 2))
      then Math_round (real_of_int detectedBPM / 2)
      else detectedBPM)"

text \<open>
  \<open>detectBPM(buffer)\<close>: a number, or \<open>null\<close> (here \<open>None\<close>) when the body throws, which
  the \<open>catch\<close> turns into the result.
\<close>

definition detectBPM :: "AudioBuffer \<Rightarrow> int option" where
  "detectBPM buffer =
     (case getChannelData buffer 0 of
        Inl e \<Rightarrow> None
      | Inr channelData \<Rightarrow>
          (let onsets = detectOnsets channelData (buf_sampleRate buffer)
           in if length onsets < 2 then Some 120
              else (let intervals = onset_intervals onsets (buf_sampleRate buffer);
                        tempoGroups = fold count_interval intervals [];
                        detectedBPM = snd (fold most_common tempoGroups (0, 120))
                    in Some (octave_correction tempoGroups detectedBPM - 1))))"

text \<open>
  The tempo estimate in the words of the specification, from the buckets that are counted:
  the most frequent bucket, among equally frequent ones the smallest (the first that
  \<open>Object.entries\<close> lists), 120 when no bucket is counted; doubled when below 70 and the
  double was counted; halved and rounded when above 160 and that half was counted; less 1.
\<close>

definition winning_bucket :: "int list \<Rightarrow> int" where
  "winning_bucket buckets =
     (if buckets = [] then 120
      else Min (set (filter
             (\<lambda>b. list_all (\<lambda>b'. count_list buckets b' \<le> count_list buckets b) buckets)
             buckets)))"

definition tempo_by_vote :: "int list \<Rightarrow> int" where
  "tempo_by_vote buckets =
     (let winner = winning_bucket buckets;
          corrected =
            (if winner < 70 \<and> count_list buckets (winner * 2) > 0 then winner * 2
             else if winner > 160 \<and> count_list buckets (Math_round (real_of_int winner / 2)) > 0
             then Math_round (real_of_int winner / 2)
             else winner)
      in corrected - 1)"

definition counted :: "int \<Rightarrow> bool" where
  \<comment> \<open>The buckets that \<open>detectBPM\<close> counts.\<close>
  "counted bucket \<longleftrightarrow> bucket > 60 \<and> bucket < 200"

text \<open>
  A test signal: the amplitudes of consecutive blocks of 1024 frames (one hop each).
\<close>

definition blocks :: "real list \<Rightarrow> real list" where
  "blocks amplitudes = concat (map (replicate 1024) amplitudes)"

section \<open>Player: play, pause and the currently playing instance (core.js)\<close>




























section \<open>Pre-supplied waveform data (core.js)\<close>

text \<open>
  The JavaScript values that can end up in \<open>waveformData\<close>: numbers, \<open>NaN\<close>, arrays,
  and everything else (\<open>null\<close>, booleans, strings, objects).
\<close>

datatype js_value =
    JNumber real
  | JNaN
  | is_JArray: JArray "js_value list"
  | JOther

text \<open>
  The argument of \<open>setWaveformData\<close>: a string, an array, or any other value.
\<close>

datatype waveform_arg = WString string | WArray "js_value list" | WOther

text \<open>
  \<open>data.split(",")\<close>: the fields between the commas; one field more than there are
  commas, so at least one.
\<close>

fun split_comma :: "string \<Rightarrow> string list" where
  "split_comma [] = [[]]"
| "split_comma (c # cs) =
     (if c = CHR '','' then [] # split_comma cs
      else (case split_comma cs of
              [] \<Rightarrow> [[c]]
            | field # rest \<Rightarrow> (c # field) # rest))"

text \<open>
  \<open>setWaveformData(data)\<close>, as the new value of \<open>this.waveformData\<close>. \<open>JSON.parse\<close> and
  \<open>Number\<close> belong to the JavaScript engine and are parameters: \<open>JSON_parse s\<close> is
  \<open>None\<close> when \<open>JSON.parse\<close> throws on \<open>s\<close>, and \<open>Number s\<close> is the number that the
  string converts to, or \<open>NaN\<close>.
\<close>

definition setWaveformData ::
  "(string \<Rightarrow> js_value option) \<Rightarrow> (string \<Rightarrow> js_value) \<Rightarrow> waveform_arg \<Rightarrow> js_value list" where
  "setWaveformData JSON_parse Number data =
     (case data of
        WString s \<Rightarrow>
          (case JSON_parse s of
             Some parsed \<Rightarrow> (case parsed of JArray xs \<Rightarrow> xs | _ \<Rightarrow> [])
           | None \<Rightarrow> map Number (split_comma s))
      | WArray xs \<Rightarrow> xs
      | WOther \<Rightarrow> [])"

text \<open>
  The choice of the envelope in \<open>load(url)\<close>. \<open>options.waveform\<close> is \<open>None\<close> when it is
  \<open>null\<close> or not set; an empty string is falsy too. Otherwise \<open>generateWaveform\<close> runs,
  and the placeholder replaces its result when it fails.
\<close>

datatype generated = Generated "js_value list" | Generation_failed

definition load_waveformData ::
  "(string \<Rightarrow> js_value option) \<Rightarrow> (string \<Rightarrow> js_value) \<Rightarrow> waveform_arg option
     \<Rightarrow> generated \<Rightarrow> js_value list \<Rightarrow> js_value list" where
  "load_waveformData JSON_parse Number waveform result placeholder =
     (if waveform \<noteq> None \<and> waveform \<noteq> Some (WString [])
      then setWaveformData JSON_parse Number (the waveform)
      else (case result of
              Generated peaks \<Rightarrow> peaks
            | Generation_failed \<Rightarrow> placeholder))"

section \<open>Waveform renderer (drawing.js)\<close>

text \<open>
  A drawing routine is modelled by the calls it makes on the 2D context, in order.
  The coordinates of the curve of \<open>drawLine\<close> can fail to be finite numbers (a division
  by \<open>peaks.length - 1 = 0\<close>, a read past the end of \<open>peaks\<close>): \<open>NonFinite\<close> stands for
  \<open>NaN\<close> and the infinities, which sums, differences and halves never leave.
\<close>

datatype jsnum = Num real | NonFinite

fun js_add :: "jsnum \<Rightarrow> jsnum \<Rightarrow> jsnum" where
  "js_add (Num a) (Num b) = Num (a + b)"
| "js_add _ _ = NonFinite"

fun js_sub :: "jsnum \<Rightarrow> jsnum \<Rightarrow> jsnum" where
  "js_sub (Num a) (Num b) = Num (a - b)"
| "js_sub _ _ = NonFinite"

fun js_half :: "jsnum \<Rightarrow> jsnum" where
  "js_half (Num a) = Num (a * (1 / 2))"
| "js_half NonFinite = NonFinite"

datatype canvas_op =
    ClearRect real real real real
  | FillRect real real real real
  | Rect real real real real
  | MoveTo real real
  | LineTo real real
  | is_BezierCurveTo: BezierCurveTo jsnum jsnum jsnum jsnum jsnum jsnum
  | Arc real real real real real
  | BeginPath | ClosePath | Clip | Stroke | Fill | Save | Restore
  | SetFillStyle string | SetStrokeStyle string
  | SetLineWidth real | SetLineCap string | SetLineJoin string
  | SetShadowBlur real | SetShadowColor string | SetShadowOffsetY real

record canvas =
  canvas_width :: nat
  canvas_height :: nat

record draw_options =
  opt_waveformStyle :: string
  opt_barWidth :: real
  opt_barSpacing :: real
  opt_color :: string
  opt_progressColor :: string

definition num_or :: "real \<Rightarrow> real \<Rightarrow> real" where
  \<comment> \<open>\<open>x || d\<close> on numbers: 0 is falsy.\<close>
  "num_or x d = (if x = 0 then d else x)"

definition str_or :: "string \<Rightarrow> string \<Rightarrow> string" where
  \<comment> \<open>\<open>s || d\<close> on strings: the empty string is falsy.\<close>
  "str_or s d = (if s = [] then d else s)"

text \<open>
  \<open>Math.floor(canvas.width / (barWidth + barSpacing))\<close>. The quotient by 0 is \<open>NaN\<close> for
  a canvas of width 0 and \<open>Infinity\<close> otherwise.
\<close>

datatype js_count = Finite int | PlusInfinity | NotANumber

definition barCount :: "nat \<Rightarrow> real \<Rightarrow> real \<Rightarrow> js_count" where
  "barCount width barWidth barSpacing =
     (if barWidth + barSpacing = 0
      then (if width = 0 then NotANumber else PlusInfinity)
      else Finite \<lfloor>real width / (barWidth + barSpacing)\<rfloor>)"

text \<open>
  \<open>resampleData(peaks, barCount)\<close> for such a count. With \<open>NaN\<close> every comparison of
  \<open>resampleData\<close> is false and the downsampling loop has no round: the result is empty.
  With \<open>Infinity\<close> and data that is not empty the upsampling loop \<open>i < targetLength\<close>
  never ends.
\<close>

definition resampleData_count :: "real list \<Rightarrow> js_count \<Rightarrow> real list result" where
  "resampleData_count data targetLength =
     (case targetLength of
        Finite n \<Rightarrow> Return (resampleData data n)
      | NotANumber \<Rightarrow> Return []
      | PlusInfinity \<Rightarrow> if data = [] then Return [] else Never_returns)"

text \<open>
  The first lines of \<open>drawBars\<close>, \<open>drawMirror\<close>, \<open>drawBlocks\<close> and \<open>drawDots\<close>, from the
  scaled bar width and spacing to \<open>resampledPeaks\<close>.
\<close>

definition resampledPeaks :: "canvas \<Rightarrow> real \<Rightarrow> real \<Rightarrow> real list \<Rightarrow> real list result" where
  "resampledPeaks cv barWidth barSpacing peaks =
     resampleData_count peaks (barCount (canvas_width cv) barWidth barSpacing)"

text \<open>
  A loop \<open>for (let i = 0; i < resampledPeaks.length; i++)\<close> whose body may \<open>break\<close>:
  the body gives \<open>None\<close> for the break and its calls otherwise.
\<close>

fun column_loop :: "(nat \<Rightarrow> real \<Rightarrow> canvas_op list option) \<Rightarrow> nat \<Rightarrow> real list \<Rightarrow> canvas_op list" where
  "column_loop body i [] = []"
| "column_loop body i (peak # rest) =
     (case body i peak of
        None \<Rightarrow> []
      | Some ops \<Rightarrow> ops @ column_loop body (i + 1) rest)"

definition bars_calls :: "canvas \<Rightarrow> real \<Rightarrow> real \<Rightarrow> real \<Rightarrow> draw_options \<Rightarrow> real list \<Rightarrow> canvas_op list" where
  "bars_calls cv barWidth barSpacing progress options resampled =
     (let width = real (canvas_width cv);
          height = real (canvas_height cv);
          progressWidth = progress * width
      in [ClearRect 0 0 width height]
         @ column_loop (\<lambda>i peak.
             let x = real i * (barWidth + barSpacing)
             in if x + barWidth > width then None
                else (let peakHeight = peak * height * (9 / 10);
                          y = height - peakHeight
                      in Some [SetFillStyle (opt_color options),
                               FillRect x y barWidth peakHeight])) 0 resampled
         @ [Save, BeginPath, Rect 0 0 progressWidth height, Clip]
         @ column_loop (\<lambda>i peak.
             let x = real i * (barWidth + barSpacing)
             in if x > progressWidth then None
                else (let peakHeight = peak * height * (9 / 10);
                          y = height - peakHeight
                      in Some [SetFillStyle (opt_progressColor options),
                               FillRect x y barWidth peakHeight])) 0 resampled
         @ [Restore])"

definition mirror_calls :: "canvas \<Rightarrow> real \<Rightarrow> real \<Rightarrow> real \<Rightarrow> draw_options \<Rightarrow> real list \<Rightarrow> canvas_op list" where
  "mirror_calls cv barWidth barSpacing progress options resampled =
     (let width = real (canvas_width cv);
          height = real (canvas_height cv);
          centerY = height / 2;
          progressWidth = progress * width
      in [ClearRect 0 0 width height]
         @ column_loop (\<lambda>i peak.
             let x = real i * (barWidth + barSpacing)
             in if x + barWidth > width then None
                else (let peakHeight = peak * height * (45 / 100)
                      in Some [SetFillStyle (opt_color options),
                               FillRect x (centerY - peakHeight) barWidth peakHeight,
                               FillRect x centerY barWidth peakHeight])) 0 resampled
         @ [Save, BeginPath, Rect 0 0 progressWidth height, Clip]
         @ column_loop (\<lambda>i peak.
             let x = real i * (barWidth + barSpacing)
             in if x > progressWidth then None
                else (let peakHeight = peak * height * (45 / 100)
                      in Some [SetFillStyle (opt_progressColor options),
                               FillRect x (centerY - peakHeight) barWidth peakHeight,
                               FillRect x centerY barWidth peakHeight])) 0 resampled
         @ [Restore])"

definition blocks_calls :: "real \<Rightarrow> canvas \<Rightarrow> real \<Rightarrow> real \<Rightarrow> real \<Rightarrow> draw_options \<Rightarrow> real list \<Rightarrow> canvas_op list" where
  "blocks_calls dpr cv barWidth barSpacing progress options resampled =
     (let width = real (canvas_width cv);
          height = real (canvas_height cv);
          blockSize = 4 * dpr;
          blockGap = 2 * dpr;
          progressWidth = progress * width;
          centerY = height / 2
      in [ClearRect 0 0 width height]
         @ column_loop (\<lambda>i peak.
             let x = real i * (barWidth + barSpacing)
             in if x + barWidth > width then None
                else (let peakHeight = peak * height * (9 / 10);
                          blockCount = \<lfloor>peakHeight / (blockSize + blockGap)\<rfloor>
                      in Some (SetFillStyle
                                 (if x < progressWidth then opt_progressColor options
                                  else opt_color options)
                               # concat (map (\<lambda>j.
                                   let blockOffset = real j * (blockSize + blockGap)
                                   in FillRect x (centerY - blockOffset - blockSize) barWidth blockSize
                                      # (if j > 0 then [FillRect x (centerY + blockOffset) barWidth blockSize]
                                         else []))
                                 [0..<nat blockCount])))) 0 resampled)"

definition dots_calls :: "real \<Rightarrow> canvas \<Rightarrow> real \<Rightarrow> real \<Rightarrow> real \<Rightarrow> draw_options \<Rightarrow> real list \<Rightarrow> canvas_op list" where
  "dots_calls dpr cv barWidth barSpacing progress options resampled =
     (let width = real (canvas_width cv);
          height = real (canvas_height cv);
          dotRadius = max ((3 / 2) * dpr) (barWidth / 2);
          progressWidth = progress * width;
          centerY = height / 2
      in [ClearRect 0 0 width height]
         @ column_loop (\<lambda>i peak.
             let x = real i * (barWidth + barSpacing) + barWidth / 2
             in if x > width then None
                else (let peakHeight = peak * height * (9 / 10)
                      in Some [SetFillStyle
                                 (if x < progressWidth then opt_progressColor options
                                  else opt_color options),
                               BeginPath,
                               Arc x (centerY - peakHeight / 2) dotRadius 0 (pi * 2),
                               Fill,
                               BeginPath,
                               Arc x (centerY + peakHeight / 2) dotRadius 0 (pi * 2),
                               Fill])) 0 resampled)"

text \<open>
  The four routines that draw columns. \<open>devicePixelRatio\<close> is the browser's value;
  \<open>window.devicePixelRatio || 1\<close> replaces 0 by 1. When \<open>resampleData\<close> does not return,
  the routine does not.
\<close>

definition drawBars :: "real \<Rightarrow> canvas \<Rightarrow> real list \<Rightarrow> real \<Rightarrow> draw_options \<Rightarrow> canvas_op list result" where
  "drawBars devicePixelRatio cv peaks progress options =
     (let dpr = num_or devicePixelRatio 1;
          barWidth = opt_barWidth options * dpr;
          barSpacing = opt_barSpacing options * dpr
      in case resampledPeaks cv barWidth barSpacing peaks of
           Return resampled \<Rightarrow> Return (bars_calls cv barWidth barSpacing progress options resampled)
         | Throw e \<Rightarrow> Throw e
         | Never_returns \<Rightarrow> Never_returns)"

definition drawMirror :: "real \<Rightarrow> canvas \<Rightarrow> real list \<Rightarrow> real \<Rightarrow> draw_options \<Rightarrow> canvas_op list result" where
  "drawMirror devicePixelRatio cv peaks progress options =
     (let dpr = num_or devicePixelRatio 1;
          barWidth = opt_barWidth options * dpr;
          barSpacing = opt_barSpacing options * dpr
      in case resampledPeaks cv barWidth barSpacing peaks of
           Return resampled \<Rightarrow> Return (mirror_calls cv barWidth barSpacing progress options resampled)
         | Throw e \<Rightarrow> Throw e
         | Never_returns \<Rightarrow> Never_returns)"

definition drawBlocks :: "real \<Rightarrow> canvas \<Rightarrow> real list \<Rightarrow> real \<Rightarrow> draw_options \<Rightarrow> canvas_op list result" where
  "drawBlocks devicePixelRatio cv peaks progress options =
     (let dpr = num_or devicePixelRatio 1;
          barWidth = num_or (opt_barWidth options) 3 * dpr;
          barSpacing = num_or (opt_barSpacing options) 1 * dpr
      in case resampledPeaks cv barWidth barSpacing peaks of
           Return resampled \<Rightarrow>
             Return (blocks_calls dpr cv barWidth barSpacing progress options resampled)
         | Throw e \<Rightarrow> Throw e
         | Never_returns \<Rightarrow> Never_returns)"

definition drawDots :: "real \<Rightarrow> canvas \<Rightarrow> real list \<Rightarrow> real \<Rightarrow> draw_options \<Rightarrow> canvas_op list result" where
  "drawDots devicePixelRatio cv peaks progress options =
     (let dpr = num_or devicePixelRatio 1;
          barWidth = num_or (opt_barWidth options) 2 * dpr;
          barSpacing = num_or (opt_barSpacing options) 3 * dpr
      in case resampledPeaks cv barWidth barSpacing peaks of
           Return resampled \<Rightarrow>
             Return (dots_calls dpr cv barWidth barSpacing progress options resampled)
         | Throw e \<Rightarrow> Throw e
         | Never_returns \<Rightarrow> Never_returns)"

text \<open>
  \<open>drawLine\<close>. The points of a curve, from \<open>peaks\<close> itself:
  \<open>x = i / (peaks.length - 1) * width\<close> and
  \<open>y = centerY + Math.sin(i * 0.1) * peaks[i] * amplitude\<close>.
\<close>

definition curve_point :: "canvas \<Rightarrow> real list \<Rightarrow> nat \<Rightarrow> jsnum \<times> jsnum" where
  "curve_point cv peaks i =
     (let width = real (canvas_width cv);
          height = real (canvas_height cv);
          centerY = height / 2;
          amplitude = height * (35 / 100)
      in (if length peaks = 1 then NonFinite
          else Num (real i / (real (length peaks) - 1) * width),
          if i < length peaks
          then Num (centerY + sin (real i * (1 / 10)) * (peaks ! i) * amplitude)
          else NonFinite))"

text \<open>
  The loop \<open>for (let i = 0; i < points.length - 1; i++)\<close> over consecutive points, one
  \<open>bezierCurveTo\<close> for each pair.
\<close>

fun curve_segments :: "(jsnum \<times> jsnum) list \<Rightarrow> canvas_op list" where
  "curve_segments (p # q # rest) =
     BezierCurveTo
       (js_add (fst p) (js_half (js_sub (fst q) (fst p)))) (snd p)
       (js_sub (fst q) (js_half (js_sub (fst q) (fst p)))) (snd q)
       (fst q) (snd q)
     # curve_segments (q # rest)"
| "curve_segments _ = []"

definition drawCurve :: "canvas \<Rightarrow> real list \<Rightarrow> string \<Rightarrow> real \<Rightarrow> real \<Rightarrow> bool \<Rightarrow> canvas_op list" where
  "drawCurve cv peaks color lineWidth endProgress addGlow =
     (let centerY = real (canvas_height cv) / 2;
          samples = \<lfloor>real (length peaks) * endProgress\<rfloor>;
          points = map (curve_point cv peaks) [0..<nat samples]
      in (if addGlow then [SetShadowBlur 12, SetShadowColor color] else [])
         @ [SetStrokeStyle color, SetLineWidth lineWidth, SetLineCap ''round'',
            SetLineJoin ''round'', BeginPath, MoveTo 0 centerY]
         @ curve_segments points
         @ [Stroke]
         @ (if addGlow then [SetShadowBlur 0] else []))"

definition drawLine :: "real \<Rightarrow> canvas \<Rightarrow> real list \<Rightarrow> real \<Rightarrow> draw_options \<Rightarrow> canvas_op list result" where
  "drawLine devicePixelRatio cv peaks progress options =
     (let width = real (canvas_width cv);
          height = real (canvas_height cv);
          centerY = height / 2
      in Return
          ([ClearRect 0 0 width height,
            SetStrokeStyle ''rgba(255, 255, 255, 0.03)'', SetLineWidth (1 / 2),
            BeginPath, MoveTo 0 centerY, LineTo width centerY, Stroke]
           @ concat (map (\<lambda>i. let x = width / 10 * real i
                               in [BeginPath, MoveTo x 0, LineTo x height, Stroke]) [0..<11])
           @ drawCurve cv peaks (opt_color options) 2 1 False
           @ (if progress > 0 then drawCurve cv peaks (opt_progressColor options) 3 progress True
              else [])))"

text \<open>\<open>drawSeekbar\<close>: a track, and for a positive progress a fill and a handle.\<close>

definition drawSeekbar :: "real \<Rightarrow> canvas \<Rightarrow> real list \<Rightarrow> real \<Rightarrow> draw_options \<Rightarrow> canvas_op list result" where
  "drawSeekbar devicePixelRatio cv peaks progress options =
     (let width = real (canvas_width cv);
          height = real (canvas_height cv);
          centerY = height / 2;
          barHeight = 4;
          borderRadius = barHeight / 2
      in Return
          ([ClearRect 0 0 width height,
            SetFillStyle (str_or (opt_color options) ''rgba(255, 255, 255, 0.2)''),
            BeginPath,
            MoveTo borderRadius (centerY - barHeight / 2),
            LineTo (width - borderRadius) (centerY - barHeight / 2),
            Arc (width - borderRadius) centerY (barHeight / 2) (- pi / 2) (pi / 2),
            LineTo borderRadius (centerY + barHeight / 2),
            Arc borderRadius centerY (barHeight / 2) (pi / 2) (- pi / 2),
            ClosePath, Fill]
           @ (if progress > 0
              then (let progressWidth = max (borderRadius * 2) (progress * width);
                        handleRadius = 8;
                        handleX = progressWidth
                    in [SetShadowBlur 8,
                        SetShadowColor (opt_progressColor options),
                        SetFillStyle (str_or (opt_progressColor options) ''rgba(255, 255, 255, 0.9)''),
                        BeginPath,
                        MoveTo borderRadius (centerY - barHeight / 2),
                        LineTo (progressWidth - borderRadius) (centerY - barHeight / 2),
                        Arc (progressWidth - borderRadius) centerY (barHeight / 2) (- pi / 2) (pi / 2),
                        LineTo borderRadius (centerY + barHeight / 2),
                        Arc borderRadius centerY (barHeight / 2) (pi / 2) (- pi / 2),
                        ClosePath, Fill,
                        SetShadowBlur 0,
                        SetShadowBlur 4,
                        SetShadowColor ''rgba(0, 0, 0, 0.3)'',
                        SetShadowOffsetY 2,
                        SetFillStyle ''#ffffff'',
                        BeginPath,
                        Arc handleX centerY handleRadius 0 (pi * 2),
                        Fill,
                        SetShadowBlur 0,
                        SetShadowOffsetY 0,
                        SetFillStyle (str_or (opt_progressColor options) ''rgba(255, 255, 255, 0.9)''),
                        BeginPath,
                        Arc handleX centerY (handleRadius * (4 / 10)) 0 (pi * 2),
                        Fill])
              else [])))"

text \<open>
  \<open>draw\<close>: the routine of the style, \<open>drawBars\<close> for a style that is not in
  \<open>DRAWING_STYLES\<close>.
\<close>

definition draw :: "real \<Rightarrow> canvas \<Rightarrow> real list \<Rightarrow> real \<Rightarrow> draw_options \<Rightarrow> canvas_op list result" where
  "draw devicePixelRatio cv peaks progress options =
     (let style = opt_waveformStyle options
      in if style = ''bars'' then drawBars devicePixelRatio cv peaks progress options
         else if style = ''mirror'' then drawMirror devicePixelRatio cv peaks progress options
         else if style = ''line'' then drawLine devicePixelRatio cv peaks progress options
         else if style = ''blocks'' then drawBlocks devicePixelRatio cv peaks progress options
         else if style = ''dots'' then drawDots devicePixelRatio cv peaks progress options
         else if style = ''seekbar'' then drawSeekbar devicePixelRatio cv peaks progress options
         else drawBars devicePixelRatio cv peaks progress options)"


chapter \<open>Properties\<close>

section \<open>Resampler\<close>

lemma bucket_scan_step:
  assumes "j \<le> e" and "j < int (length data)"
  shows "bucket_scan data e j (mx, count)
       = bucket_scan data e (j + 1)
           (if 0 \<le> j \<and> data ! nat j > mx then data ! nat j else mx, count + 1)"
  using assms by (subst bucket_scan.simps) simp

lemma bucket_scan_stop:
  assumes "\<not> (j \<le> e \<and> j < int (length data))"
  shows "bucket_scan data e j (mx, count) = (mx, count)"
  using assms by (subst bucket_scan.simps) auto

lemma bucket_scan_count_mono: "count \<le> snd (bucket_scan data e j (mx, count))"
proof (induction data e j "(mx, count)" arbitrary: mx count rule: bucket_scan.induct)
  case (1 data e j mx count)
  show ?case
  proof (cases "j \<le> e \<and> j < int (length data)")
    case True
    let ?mx = "if 0 \<le> j \<and> data ! nat j > mx then data ! nat j else mx"
    have "count + 1 \<le> snd (bucket_scan data e (j + 1) (?mx, count + 1))"
      by (rule "1.hyps" [OF True])
    moreover have "bucket_scan data e j (mx, count)
        = bucket_scan data e (j + 1) (?mx, count + 1)"
      using True by (intro bucket_scan_step) simp_all
    ultimately show ?thesis by simp
  next
    case False
    show ?thesis using bucket_scan_stop [OF False] by simp
  qed
qed

lemma bucket_scan_visits:
  assumes "j \<le> e" and "j < int (length data)"
  shows "0 < snd (bucket_scan data e j (mx, 0))"
proof -
  let ?mx = "if 0 \<le> j \<and> data ! nat j > mx then data ! nat j else mx"
  have "0 + 1 \<le> snd (bucket_scan data e (j + 1) (?mx, 0 + 1))"
    by (rule bucket_scan_count_mono)
  moreover have "bucket_scan data e j (mx, 0) = bucket_scan data e (j + 1) (?mx, 0 + 1)"
    using assms by (rule bucket_scan_step)
  ultimately show ?thesis by simp
qed

lemma bucket_scan_bounded:
  assumes "\<forall>x \<in> set data. x \<le> B" and "mx \<le> B"
  shows "fst (bucket_scan data e j (mx, count)) \<le> B"
  using assms
proof (induction data e j "(mx, count)" arbitrary: mx count rule: bucket_scan.induct)
  case (1 data e j mx count)
  show ?case
  proof (cases "j \<le> e \<and> j < int (length data)")
    case True
    let ?mx = "if 0 \<le> j \<and> data ! nat j > mx then data ! nat j else mx"
    have "?mx \<le> B"
    proof (cases "0 \<le> j \<and> data ! nat j > mx")
      case inner: True
      with True have "nat j < length data" by linarith
      then have "data ! nat j \<in> set data" by (rule nth_mem)
      then have "data ! nat j \<le> B" using "1.prems"(1) by blast
      with inner show ?thesis by simp
    next
      case False
      with "1.prems" show ?thesis by auto
    qed
    then have "fst (bucket_scan data e (j + 1) (?mx, count + 1)) \<le> B"
      using "1.hyps" [OF True "1.prems"(1)] by blast
    moreover have "bucket_scan data e j (mx, count)
        = bucket_scan data e (j + 1) (?mx, count + 1)"
      using True by (intro bucket_scan_step) simp_all
    ultimately show ?thesis by simp
  next
    case False
    show ?thesis using bucket_scan_stop [OF False] "1.prems" by simp
  qed
qed

text \<open>
  In the downsampling branch the first index of every bucket is an index of the data, and
  the bucket's last index is not before its first.
\<close>

lemma bucket_start_in_range:
  assumes "0 < t" and "t < int (length data)" and "int i < t"
  shows "0 \<le> \<lfloor>real i * (real (length data) / real_of_int t)\<rfloor>"
    and "\<lfloor>real i * (real (length data) / real_of_int t)\<rfloor> < int (length data)"
    and "\<lfloor>real i * (real (length data) / real_of_int t)\<rfloor>
           \<le> \<lfloor>(real i + 1) * (real (length data) / real_of_int t)\<rfloor>"
proof -
  define b where "b = real (length data) / real_of_int t"
  have "0 < real_of_int t" and "0 < real (length data)" using assms by linarith+
  then have b: "0 < b" unfolding b_def by (rule divide_pos_pos[rotated])
  then have "0 \<le> real i * b" by simp
  then show "0 \<le> \<lfloor>real i * (real (length data) / real_of_int t)\<rfloor>"
    unfolding b_def by simp
  have "real i < real_of_int t" using assms by linarith
  then have "real i * b < real_of_int t * b" using b by (simp only: mult_strict_right_mono)
  also have "real_of_int t * b = real (length data)" using assms by (simp add: b_def)
  finally have "real i * b < real (length data)" .
  then show "\<lfloor>real i * (real (length data) / real_of_int t)\<rfloor> < int (length data)"
    unfolding b_def by (simp add: floor_less_iff)
  have "real i * b \<le> (real i + 1) * b" using b by (simp add: mult_right_mono)
  then show "\<lfloor>real i * (real (length data) / real_of_int t)\<rfloor>
           \<le> \<lfloor>(real i + 1) * (real (length data) / real_of_int t)\<rfloor>"
    unfolding b_def by (rule floor_mono)
qed

lemma bucket_of_visits:
  assumes "0 < t" and "t < int (length data)" and "int i < t"
  shows "0 < snd (bucket_of data t i)"
  unfolding bucket_of_def Let_def
  using bucket_start_in_range [OF assms] by (intro bucket_scan_visits)

lemma bucket_of_bounded:
  assumes "\<forall>x \<in> set data. x \<le> B" and "0 \<le> B"
  shows "fst (bucket_of data t i) \<le> B"
  unfolding bucket_of_def Let_def using assms by (rule bucket_scan_bounded)

lemma downsample_at_bucket:
  assumes "0 < t" and "t < int (length data)" and "int i < t"
  shows "downsample_at data t i = fst (bucket_of data t i)"
  using bucket_of_visits [OF assms]
  by (cases "bucket_of data t i") (simp add: downsample_at_def Let_def)

lemma resampleData_down:
  assumes "0 < t" and "t < int (length data)"
  shows "resampleData data t = map (downsample_at data t) [0..<nat t]"
  using assms by (cases data) (simp_all add: resampleData_def)

text \<open>
  Claim C2. The two worked examples of the resampler: \<open>resampleData([0,1,0,1], 2)\<close> is
  \<open>[1,1]\<close>, by the maximum of each bucket, and \<open>resampleData([0,1], 4)\<close> is
  \<open>[0, 1/3, 2/3, 1]\<close>, by linear interpolation.
\<close>

theorem resampleData_examples:
  "resampleData [0, 1, 0, 1] 2 = [1, 1] \<and> resampleData [0, 1] 4 = [0, 1 / 3, 2 / 3, 1]"
  by code_simp

text \<open>
  Claim C6, as stated: downsampling never gives a value above the greatest value of the
  data. It fails for data below zero, because the running maximum of a bucket starts at 0:
  three values \<open>-1\<close> downsampled to two give \<open>[0, 0]\<close>.
\<close>

theorem downsample_negative_data_counterexample:
  "resampleData [- 1, - 1, - 1] 2 = [0, 0] \<and> Max (set [- 1, - 1, - 1 :: real]) < 0"
  by code_simp

text \<open>
  Claim C6, amended: for \<open>0 < targetLength < data.length\<close> no value of
  \<open>resampleData(data, targetLength)\<close> is above the greater of 0 and the greatest value of
  the data. For data with a value that is not negative, as every envelope has, this is the
  greatest value of the data.
\<close>

theorem downsample_bounded:
  assumes "0 < targetLength" and "targetLength < int (length data)"
  shows "\<forall>v \<in> set (resampleData data targetLength). v \<le> max 0 (Max (set data))"
proof
  fix v assume "v \<in> set (resampleData data targetLength)"
  then obtain i where i: "i < nat targetLength" and v: "v = downsample_at data targetLength i"
    unfolding resampleData_down [OF assms] by auto
  from i have "int i < targetLength" by linarith
  then have "v = fst (bucket_of data targetLength i)"
    using v downsample_at_bucket [OF assms] by simp
  moreover have "\<forall>x \<in> set data. x \<le> max 0 (Max (set data))"
    by (simp add: le_max_iff_disj)
  ultimately show "v \<le> max 0 (Max (set data))"
    using bucket_of_bounded [of data "max 0 (Max (set data))"] by simp
qed

theorem downsample_bounded_witness:
  "(0::int) < 2 \<and> 2 < int (length [1 / 5, 9 / 10, 2 / 5 :: real])
   \<and> list_all (\<lambda>v. v \<le> max 0 (Max (set [1 / 5, 9 / 10, 2 / 5])))
         (resampleData [1 / 5, 9 / 10, 2 / 5] 2)"
  using downsample_bounded [of 2 "[1 / 5, 9 / 10, 2 / 5]"] by (simp add: list_all_iff)



section \<open>Peak extractor\<close>





























section \<open>Onset and tempo detector\<close>

lemma energy_loop_sum:
  assumes "e \<le> length chan" and "j \<le> e"
  shows "energy_loop chan e j acc = acc + sum_list (map (\<lambda>x. x * x) (take (e - j) (drop j chan)))"
  using assms
proof (induction chan e j acc rule: energy_loop.induct)
  case (1 chan e j acc)
  show ?case
  proof (cases "j < e")
    case True
    then have j: "j < length chan" using "1.prems" by simp
    have "take (e - j) (drop j chan) = chan ! j # take (e - (j + 1)) (drop (j + 1) chan)"
    proof -
      have "drop j chan = chan ! j # drop (j + 1) chan"
        using j by (simp add: Cons_nth_drop_Suc)
      moreover have "e - j = Suc (e - (j + 1))" using True by simp
      ultimately show ?thesis by simp
    qed
    moreover have "energy_loop chan e (j + 1) (acc + chan ! j * chan ! j)
        = acc + chan ! j * chan ! j
          + sum_list (map (\<lambda>x. x * x) (take (e - (j + 1)) (drop (j + 1) chan)))"
      using True "1.prems" by (intro "1.IH") simp_all
    ultimately show ?thesis using True by (subst energy_loop.simps) simp
  next
    case False
    with "1.prems" show ?thesis by (subst energy_loop.simps) simp
  qed
qed

lemma blocks_Cons: "blocks (a # as) = replicate 1024 a @ blocks as"
  by (simp add: blocks_def)

lemma length_blocks: "length (blocks as) = 1024 * length as"
  by (induction as) (simp_all add: blocks_def)

lemma drop_blocks: "drop (1024 * k) (blocks as) = blocks (drop k as)"
proof (induction k arbitrary: as)
  case 0
  show ?case by simp
next
  case (Suc k)
  show ?case
  proof (cases as)
    case Nil
    then show ?thesis by (simp add: blocks_def)
  next
    case (Cons a rest)
    have "drop (1024 * Suc k) (replicate 1024 a @ blocks rest) = drop (1024 * k) (blocks rest)"
      by simp
    with Cons Suc show ?thesis by (simp only: blocks_Cons drop_Suc_Cons)
  qed
qed

lemma window_energy_blocks:
  assumes "k + 2 \<le> length as"
  shows "window_energy (blocks as) (1024 * k)
       = (as ! k * as ! k + as ! Suc k * as ! Suc k) / 2"
proof -
  have "drop k as = as ! k # drop (Suc k) as"
    using assms by (intro Cons_nth_drop_Suc [symmetric]) simp
  moreover have "drop (Suc k) as = as ! Suc k # drop (Suc (Suc k)) as"
    using assms by (intro Cons_nth_drop_Suc [symmetric]) simp
  ultimately have d: "drop k as = as ! k # as ! Suc k # drop (Suc (Suc k)) as" by simp
  have "take 2048 (drop (1024 * k) (blocks as))
      = replicate 1024 (as ! k) @ replicate 1024 (as ! Suc k)"
    by (simp add: drop_blocks d blocks_Cons)
  moreover have "1024 * k + 2048 \<le> length (blocks as)"
    using assms by (simp add: length_blocks)
  ultimately have "energy_loop (blocks as) (1024 * k + 2048) (1024 * k) 0
      = sum_list (map (\<lambda>x. x * x) (replicate 1024 (as ! k) @ replicate 1024 (as ! Suc k)))"
    by (simp add: energy_loop_sum)
  also have "\<dots> = 1024 * (as ! k * as ! k) + 1024 * (as ! Suc k * as ! Suc k)"
    by (simp add: sum_list_replicate map_replicate)
  finally show ?thesis by (simp add: window_energy_def)
qed

text \<open>
  A signal of seven blocks: silence, a burst of amplitude 1/2 in block 3 and a burst of
  amplitude 1 in block 5.
\<close>

lemma two_onsets_energy:
  "window_energy (blocks [0, 0, 0, 1 / 2, 0, 1, 0]) 0 = 0"
  "window_energy (blocks [0, 0, 0, 1 / 2, 0, 1, 0]) 1024 = 0"
  "window_energy (blocks [0, 0, 0, 1 / 2, 0, 1, 0]) 2048 = 1 / 8"
  "window_energy (blocks [0, 0, 0, 1 / 2, 0, 1, 0]) 3072 = 1 / 8"
  "window_energy (blocks [0, 0, 0, 1 / 2, 0, 1, 0]) 4096 = 1 / 2"
  using window_energy_blocks [of 0 "[0, 0, 0, 1 / 2, 0, 1, 0]"]
    window_energy_blocks [of 1 "[0, 0, 0, 1 / 2, 0, 1, 0]"]
    window_energy_blocks [of 2 "[0, 0, 0, 1 / 2, 0, 1, 0]"]
    window_energy_blocks [of 3 "[0, 0, 0, 1 / 2, 0, 1, 0]"]
    window_energy_blocks [of 4 "[0, 0, 0, 1 / 2, 0, 1, 0]"]
  by (simp_all add: eval_nat_numeral)

lemma two_onsets: "detectOnsets (blocks [0, 0, 0, 1 / 2, 0, 1, 0]) 8000 = [2048, 4096]"
  by (simp add: detectOnsets_def onset_loop.simps length_blocks two_onsets_energy
      onset_step_def Let_def)

lemma map_of_below_keys:
  fixes tg :: "(int \<times> nat) list"
  assumes "\<forall>k \<in> fst ` set tg. b < k"
  shows "map_of tg b = None"
  using assms by (induction tg) auto

lemma tempoGroups_add_keys:
  "fst ` set (tempoGroups_add b tg) = insert b (fst ` set tg)"
  by (induction b tg rule: tempoGroups_add.induct) auto

lemma tempoGroups_add_sorted:
  assumes "sorted_wrt (<) (map fst tg)"
  shows "sorted_wrt (<) (map fst (tempoGroups_add b tg))"
  using assms
proof (induction b tg rule: tempoGroups_add.induct)
  case (1 bucket)
  show ?case by simp
next
  case (2 bucket tempo count rest)
  show ?case
  proof (cases "bucket = tempo")
    case True
    with "2.prems" show ?thesis by simp
  next
    case False
    show ?thesis
    proof (cases "bucket < tempo")
      case True
      with False "2.prems" show ?thesis by auto
    next
      case above: False
      then have "sorted_wrt (<) (map fst (tempoGroups_add bucket rest))"
        using False "2.IH" "2.prems" by simp
      moreover have "\<forall>k \<in> fst ` set (tempoGroups_add bucket rest). tempo < k"
        unfolding tempoGroups_add_keys using False above "2.prems" by auto
      ultimately show ?thesis using False above by simp
    qed
  qed
qed

lemma tempoGroups_add_map_of:
  assumes "sorted_wrt (<) (map fst tg)"
  shows "map_of (tempoGroups_add b tg) k =
           (if k = b then Some (case map_of tg b of None \<Rightarrow> 1 | Some c \<Rightarrow> c + 1)
            else map_of tg k)"
  using assms
proof (induction b tg rule: tempoGroups_add.induct)
  case (1 bucket)
  show ?case by simp
next
  case (2 bucket tempo count rest)
  show ?case
  proof (cases "bucket = tempo")
    case True
    then show ?thesis by simp
  next
    case False
    show ?thesis
    proof (cases "bucket < tempo")
      case True
      have "\<forall>k \<in> fst ` set ((tempo, count) # rest). bucket < k"
        using True "2.prems" by auto
      then have "map_of ((tempo, count) # rest) bucket = None" by (rule map_of_below_keys)
      with True False show ?thesis by simp
    next
      case above: False
      then have "map_of (tempoGroups_add bucket rest) k =
          (if k = bucket then Some (case map_of rest bucket of None \<Rightarrow> 1 | Some c \<Rightarrow> c + 1)
           else map_of rest k)"
        using False "2.IH" "2.prems" by simp
      with False above show ?thesis by auto
    qed
  qed
qed

lemma tempoGroups_fold:
  "sorted_wrt (<) (map fst (fold tempoGroups_add vs []))
   \<and> (\<forall>k. map_of (fold tempoGroups_add vs []) k =
          (if k \<in> set vs then Some (count_list vs k) else None))"
proof (induction vs rule: rev_induct)
  case Nil
  show ?case by simp
next
  case (snoc v vs)
  let ?tg = "fold tempoGroups_add vs []"
  have sorted: "sorted_wrt (<) (map fst ?tg)" using snoc by blast
  have lookup: "map_of ?tg k = (if k \<in> set vs then Some (count_list vs k) else None)" for k
    using snoc by blast
  have "sorted_wrt (<) (map fst (tempoGroups_add v ?tg))"
    using sorted by (rule tempoGroups_add_sorted)
  moreover have "map_of (tempoGroups_add v ?tg) k =
      (if k \<in> set (vs @ [v]) then Some (count_list (vs @ [v]) k) else None)" for k
    by (simp add: tempoGroups_add_map_of [OF sorted] lookup)
  ultimately show ?case by simp
qed

lemma fold_count_interval:
  "fold count_interval intervals tg
   = fold tempoGroups_add (filter counted (map tempo_bucket intervals)) tg"
  by (induction intervals arbitrary: tg) (simp_all add: count_interval_def counted_def Let_def)

lemma most_common_scan:
  assumes "sorted_wrt (<) (map fst es)" and "\<forall>e \<in> set es. 0 < snd e" and "es \<noteq> []"
  shows "\<exists>M k. fold most_common es (0, 120) = (M, k) \<and> (k, M) \<in> set es
           \<and> (\<forall>e \<in> set es. snd e \<le> M \<and> (snd e = M \<longrightarrow> k \<le> fst e))"
  using assms
proof (induction es rule: rev_induct)
  case Nil
  then show ?case by simp
next
  case (snoc e es)
  obtain k1 c1 where e: "e = (k1, c1)" by (cases e)
  have c1: "0 < c1" using snoc.prems(2) e by simp
  show ?case
  proof (cases "es = []")
    case True
    with c1 e show ?thesis by (simp add: most_common_def)
  next
    case False
    have sorted: "sorted_wrt (<) (map fst es)" and below: "\<forall>x \<in> set es. fst x < k1"
      using snoc.prems(1) e by (auto simp: sorted_wrt_append)
    have pos: "\<forall>e \<in> set es. 0 < snd e" using snoc.prems(2) by simp
    obtain M k where scan: "fold most_common es (0, 120) = (M, k)" and mem: "(k, M) \<in> set es"
      and best: "\<forall>e \<in> set es. snd e \<le> M \<and> (snd e = M \<longrightarrow> k \<le> fst e)"
      using snoc.IH [OF sorted pos False] by blast
    have k: "k < k1" using below mem by force
    show ?thesis
    proof (cases "c1 > M")
      case True
      then have "fold most_common (es @ [e]) (0, 120) = (c1, k1)"
        using scan e by (simp add: most_common_def)
      moreover have "\<forall>x \<in> set (es @ [e]). snd x \<le> c1 \<and> (snd x = c1 \<longrightarrow> k1 \<le> fst x)"
        using best True e by fastforce
      ultimately show ?thesis using e by simp
    next
      case False
      then have "fold most_common (es @ [e]) (0, 120) = (M, k)"
        using scan e by (simp add: most_common_def)
      moreover have "\<forall>x \<in> set (es @ [e]). snd x \<le> M \<and> (snd x = M \<longrightarrow> k \<le> fst x)"
        using best False e k by fastforce
      ultimately show ?thesis using mem by simp
    qed
  qed
qed

lemma winning_bucket_scan:
  assumes "vs \<noteq> []"
  shows "snd (fold most_common (fold tempoGroups_add vs []) (0, 120)) = winning_bucket vs"
proof -
  let ?tg = "fold tempoGroups_add vs []"
  have sorted: "sorted_wrt (<) (map fst ?tg)"
    and lookup: "map_of ?tg k = (if k \<in> set vs then Some (count_list vs k) else None)" for k
    using tempoGroups_fold [of vs] by blast+
  have distinct: "distinct (map fst ?tg)"
    using sorted by (simp add: strict_sorted_iff)
  have entry: "(k, c) \<in> set ?tg \<longleftrightarrow> k \<in> set vs \<and> c = count_list vs k" for k c
    using map_of_eq_Some_iff [OF distinct, of k c] lookup [of k] by (auto split: if_splits)
  have pos: "\<forall>e \<in> set ?tg. 0 < snd e"
  proof
    fix e assume "e \<in> set ?tg"
    then have "fst e \<in> set vs" and "snd e = count_list vs (fst e)"
      using entry [of "fst e" "snd e"] by simp_all
    then show "0 < snd e" by (simp add: count_list_0_iff zero_less_iff_neq_zero)
  qed
  obtain v where "v \<in> set vs" using assms by (cases vs) auto
  then have "(v, count_list vs v) \<in> set ?tg" by (simp add: entry)
  then have nonempty: "?tg \<noteq> []" by auto
  obtain M k where scan: "fold most_common ?tg (0, 120) = (M, k)" and mem: "(k, M) \<in> set ?tg"
    and best: "\<forall>e \<in> set ?tg. snd e \<le> M \<and> (snd e = M \<longrightarrow> k \<le> fst e)"
    using most_common_scan [OF sorted pos nonempty] by blast
  have k: "k \<in> set vs" and M: "M = count_list vs k" using mem by (simp_all add: entry)
  have best': "count_list vs b \<le> count_list vs k
      \<and> (count_list vs b = count_list vs k \<longrightarrow> k \<le> b)" if "b \<in> set vs" for b
  proof -
    have "(b, count_list vs b) \<in> set ?tg" using that by (simp add: entry)
    with best M show ?thesis by fastforce
  qed
  let ?S = "set (filter (\<lambda>b. list_all (\<lambda>b'. count_list vs b' \<le> count_list vs b) vs) vs)"
  have "Min ?S = k"
  proof (rule Min_eqI)
    show "finite ?S" by simp
    show "k \<in> ?S" using k best' by (simp add: list_all_iff)
    fix b assume "b \<in> ?S"
    then have b: "b \<in> set vs" and "count_list vs k \<le> count_list vs b"
      using k by (auto simp: list_all_iff)
    with best' [OF b] show "k \<le> b" by simp
  qed
  with assms scan show ?thesis by (simp add: winning_bucket_def)
qed

lemma has_votes_count:
  "has_votes (fold tempoGroups_add vs []) k \<longleftrightarrow> count_list vs k > 0"
  using tempoGroups_fold [of vs]
  by (auto simp: has_votes_def count_list_0_iff zero_less_iff_neq_zero)

lemma tempo_estimate:
  "octave_correction (fold tempoGroups_add vs [])
     (snd (fold most_common (fold tempoGroups_add vs []) (0, 120))) - 1
   = tempo_by_vote vs"
proof (cases "vs = []")
  case True
  then show ?thesis
    by (simp add: octave_correction_def tempo_by_vote_def winning_bucket_def has_votes_def)
next
  case False
  then show ?thesis
    by (simp add: winning_bucket_scan octave_correction_def tempo_by_vote_def has_votes_count
        Let_def)
qed

lemma one_onset_energy:
  "window_energy (blocks [0, 0, 0, 1, 0]) 0 = 0"
  "window_energy (blocks [0, 0, 0, 1, 0]) 1024 = 0"
  "window_energy (blocks [0, 0, 0, 1, 0]) 2048 = 1 / 2"
  using window_energy_blocks [of 0 "[0, 0, 0, 1, 0]"]
    window_energy_blocks [of 1 "[0, 0, 0, 1, 0]"]
    window_energy_blocks [of 2 "[0, 0, 0, 1, 0]"]
  by (simp_all add: eval_nat_numeral)

lemma one_onset: "detectOnsets (blocks [0, 0, 0, 1, 0]) 8000 = [2048]"
  by (simp add: detectOnsets_def onset_loop.simps length_blocks one_onset_energy
      onset_step_def Let_def)

lemma half_second_energy:
  "window_energy (blocks [0, 0, 0, 1 / 2, 0, 0, 0, 1, 0]) 0 = 0"
  "window_energy (blocks [0, 0, 0, 1 / 2, 0, 0, 0, 1, 0]) 1024 = 0"
  "window_energy (blocks [0, 0, 0, 1 / 2, 0, 0, 0, 1, 0]) 2048 = 1 / 8"
  "window_energy (blocks [0, 0, 0, 1 / 2, 0, 0, 0, 1, 0]) 3072 = 1 / 8"
  "window_energy (blocks [0, 0, 0, 1 / 2, 0, 0, 0, 1, 0]) 4096 = 0"
  "window_energy (blocks [0, 0, 0, 1 / 2, 0, 0, 0, 1, 0]) 5120 = 0"
  "window_energy (blocks [0, 0, 0, 1 / 2, 0, 0, 0, 1, 0]) 6144 = 1 / 2"
  using window_energy_blocks [of 0 "[0, 0, 0, 1 / 2, 0, 0, 0, 1, 0]"]
    window_energy_blocks [of 1 "[0, 0, 0, 1 / 2, 0, 0, 0, 1, 0]"]
    window_energy_blocks [of 2 "[0, 0, 0, 1 / 2, 0, 0, 0, 1, 0]"]
    window_energy_blocks [of 3 "[0, 0, 0, 1 / 2, 0, 0, 0, 1, 0]"]
    window_energy_blocks [of 4 "[0, 0, 0, 1 / 2, 0, 0, 0, 1, 0]"]
    window_energy_blocks [of 5 "[0, 0, 0, 1 / 2, 0, 0, 0, 1, 0]"]
    window_energy_blocks [of 6 "[0, 0, 0, 1 / 2, 0, 0, 0, 1, 0]"]
  by (simp_all add: eval_nat_numeral)

lemma half_second_onsets:
  "detectOnsets (blocks [0, 0, 0, 1 / 2, 0, 0, 0, 1, 0]) 8000 = [2048, 6144]"
  by (simp add: detectOnsets_def onset_loop.simps length_blocks half_second_energy
      onset_step_def Let_def)

lemma no_onsets_short: "detectOnsets [0, 0, 0, 0] 8000 = []"
  by (simp add: detectOnsets_def onset_loop.simps)

text \<open>
  Claim C3, amended. When onset detection finds fewer than 2 onsets, \<open>detectBPM\<close> returns
  exactly 120: the early return leaves before the calibration offset is subtracted.
\<close>

theorem detectBPM_few_onsets:
  assumes "getChannelData buffer 0 = Inr channelData"
    and "length (detectOnsets channelData (buf_sampleRate buffer)) < 2"
  shows "detectBPM buffer = Some 120"
  using assms by (simp add: detectBPM_def Let_def)

theorem detectBPM_few_onsets_witness:
  "getChannelData \<lparr>buf_length = 4, numberOfChannels = 1, buf_sampleRate = 8000,
       channel_data = [[0, 0, 0, 0]]\<rparr> 0 = Inr [0, 0, 0, 0]
   \<and> length (detectOnsets [0, 0, 0, 0] 8000) < 2
   \<and> detectBPM \<lparr>buf_length = 4, numberOfChannels = 1, buf_sampleRate = 8000,
       channel_data = [[0, 0, 0, 0]]\<rparr> = Some 120"
proof -
  let ?b = "\<lparr>buf_length = 4, numberOfChannels = 1, buf_sampleRate = 8000,
       channel_data = [[0, 0, 0, 0 :: real]]\<rparr>"
  have g: "getChannelData ?b 0 = Inr [0, 0, 0, 0]" by (simp add: getChannelData_def)
  have n: "length (detectOnsets [0, 0, 0, 0] (buf_sampleRate ?b)) < 2"
    by (simp add: no_onsets_short)
  from detectBPM_few_onsets [OF g n] g n show ?thesis by simp
qed

text \<open>
  Claim C3, as stated, gives 119. A signal of five blocks with one burst has the single
  onset 2048, and \<open>detectBPM\<close> returns 120.
\<close>

theorem detectBPM_one_onset_counterexample:
  "detectOnsets (blocks [0, 0, 0, 1, 0]) 8000 = [2048]
   \<and> detectBPM \<lparr>buf_length = 5120, numberOfChannels = 1, buf_sampleRate = 8000,
       channel_data = [blocks [0, 0, 0, 1, 0]]\<rparr> = Some 120"
  by (simp add: detectBPM_def getChannelData_def one_onset)

text \<open>
  Claim C7, amended. With at least 2 onsets \<open>detectBPM\<close> returns the tempo voted by the
  buckets strictly between 60 and 200 only: the most frequent of them (among equally
  frequent ones the smallest, the first in the order of \<open>Object.entries\<close>), 120 when no
  bucket is in that range; doubled when below 70 and its double has votes, else halved and
  rounded when above 160 and its half has votes; and finally less 1.
\<close>

theorem detectBPM_tempo_by_vote:
  assumes "getChannelData buffer 0 = Inr channelData"
    and "onsets = detectOnsets channelData (buf_sampleRate buffer)"
    and "2 \<le> length onsets"
  shows "detectBPM buffer =
     Some (tempo_by_vote (filter counted
        (map tempo_bucket (onset_intervals onsets (buf_sampleRate buffer)))))"
  using assms by (simp add: detectBPM_def Let_def fold_count_interval tempo_estimate)

theorem detectBPM_tempo_by_vote_witness:
  "getChannelData \<lparr>buf_length = 9216, numberOfChannels = 1, buf_sampleRate = 8000,
       channel_data = [blocks [0, 0, 0, 1 / 2, 0, 0, 0, 1, 0]]\<rparr> 0
     = Inr (blocks [0, 0, 0, 1 / 2, 0, 0, 0, 1, 0])
   \<and> [2048, 6144] = detectOnsets (blocks [0, 0, 0, 1 / 2, 0, 0, 0, 1, 0]) 8000
   \<and> 2 \<le> length [2048, 6144 :: nat]
   \<and> filter counted (map tempo_bucket (onset_intervals [2048, 6144] 8000)) = [117]
   \<and> tempo_by_vote [117] = 116
   \<and> detectBPM \<lparr>buf_length = 9216, numberOfChannels = 1, buf_sampleRate = 8000,
       channel_data = [blocks [0, 0, 0, 1 / 2, 0, 0, 0, 1, 0]]\<rparr> = Some 116"
proof -
  let ?b = "\<lparr>buf_length = 9216, numberOfChannels = 1, buf_sampleRate = 8000,
       channel_data = [blocks [0, 0, 0, 1 / 2, 0, 0, 0, 1, 0]]\<rparr>"
  have g: "getChannelData ?b 0 = Inr (blocks [0, 0, 0, 1 / 2, 0, 0, 0, 1, 0])"
    by (simp add: getChannelData_def)
  have d: "[2048, 6144] = detectOnsets (blocks [0, 0, 0, 1 / 2, 0, 0, 0, 1, 0]) (buf_sampleRate ?b)"
    by (simp add: half_second_onsets)
  have l: "2 \<le> length [2048, 6144 :: nat]" by simp
  have b: "filter counted (map tempo_bucket (onset_intervals [2048, 6144] 8000)) = [117]"
    by (simp add: onset_intervals_def upt_conv_Cons tempo_bucket_def Math_round_def
        counted_def Let_def)
  have t: "tempo_by_vote [117] = 116"
    by (simp add: tempo_by_vote_def winning_bucket_def Math_round_def Let_def)
  from detectBPM_tempo_by_vote [OF g d l] g d l b t show ?thesis by simp
qed

text \<open>
  Claim C7, as stated, lets every inter-onset tempo vote. Two onsets 2048 frames apart at
  8000 Hz give the single bucket 234, for which the stated rule gives 233; the bucket is
  not below 200, it is not counted, and \<open>detectBPM\<close> returns 119.
\<close>

theorem detectBPM_uncounted_bucket_counterexample:
  "detectOnsets (blocks [0, 0, 0, 1 / 2, 0, 1, 0]) 8000 = [2048, 4096]
   \<and> map tempo_bucket (onset_intervals [2048, 4096] 8000) = [234]
   \<and> tempo_by_vote [234] = 233
   \<and> detectBPM \<lparr>buf_length = 7168, numberOfChannels = 1, buf_sampleRate = 8000,
       channel_data = [blocks [0, 0, 0, 1 / 2, 0, 1, 0]]\<rparr> = Some 119"
proof -
  have b: "map tempo_bucket (onset_intervals [2048, 4096] 8000) = [234]"
    by (simp add: onset_intervals_def upt_conv_Cons tempo_bucket_def Math_round_def Let_def)
  have t: "tempo_by_vote [234] = 233"
    by (simp add: tempo_by_vote_def winning_bucket_def Math_round_def Let_def)
  have f: "fold count_interval (onset_intervals [2048, 4096] 8000) [] = []"
    by (simp add: onset_intervals_def upt_conv_Cons tempo_bucket_def Math_round_def
        count_interval_def Let_def)
  have d: "detectBPM \<lparr>buf_length = 7168, numberOfChannels = 1, buf_sampleRate = 8000,
       channel_data = [blocks [0, 0, 0, 1 / 2, 0, 1, 0]]\<rparr> = Some 119"
    by (simp add: detectBPM_def getChannelData_def two_onsets f octave_correction_def
        has_votes_def)
  from two_onsets b t d show ?thesis by (intro conjI)
qed

section \<open>Player\<close>




































section \<open>Pre-supplied waveform data\<close>

lemma length_split_comma: "length (split_comma s) = Suc (count_list s CHR '','')"
  by (induction s) (auto split: list.splits)

text \<open>
  Claim C8, amended. For a pre-supplied waveform string: when \<open>JSON.parse\<close> accepts it
  and the value is not an array, the envelope is empty; when \<open>JSON.parse\<close> rejects it,
  the envelope is \<open>Number\<close> of every comma-separated field, one entry for each field,
  so it is never empty and holds \<open>NaN\<close> for a field that is not a number; and \<open>load\<close>
  takes the envelope of a non-empty string as it is, without generating a placeholder.
\<close>

theorem setWaveformData_string:
  "(JSON_parse s = Some v \<and> \<not> is_JArray v \<longrightarrow>
      setWaveformData JSON_parse Number (WString s) = [])
   \<and> (JSON_parse s = None \<longrightarrow>
      setWaveformData JSON_parse Number (WString s) = map Number (split_comma s)
      \<and> length (setWaveformData JSON_parse Number (WString s)) = Suc (count_list s CHR '',''))
   \<and> (s \<noteq> [] \<longrightarrow>
      load_waveformData JSON_parse Number (Some (WString s)) result placeholder
        = setWaveformData JSON_parse Number (WString s))"
  by (cases v) (simp_all add: setWaveformData_def load_waveformData_def length_split_comma)

theorem setWaveformData_string_witness:
  "(\<lambda>s. Some JOther) ''{}'' = Some JOther \<and> \<not> is_JArray JOther
   \<and> setWaveformData (\<lambda>s. Some JOther) (\<lambda>s. JNaN) (WString ''{}'') = []
   \<and> (\<lambda>s. None :: js_value option) ''abc'' = None
   \<and> setWaveformData (\<lambda>s. None) (\<lambda>s. JNaN) (WString ''abc'') = [JNaN]
   \<and> length (setWaveformData (\<lambda>s. None) (\<lambda>s. JNaN) (WString ''abc'')) = 1
   \<and> ''abc'' \<noteq> []
   \<and> load_waveformData (\<lambda>s. None) (\<lambda>s. JNaN) (Some (WString ''abc'')) Generation_failed
         [JNumber (1 / 2)] = [JNaN]"
  using setWaveformData_string [of "\<lambda>s. Some JOther" "''{}''" JOther "\<lambda>s. JNaN"]
    setWaveformData_string [of "\<lambda>s. None" "''abc''" _ "\<lambda>s. JNaN" Generation_failed
      "[JNumber (1 / 2)]"]
  by simp

text \<open>
  Claim C8, as stated, gives the empty envelope and then the placeholder. For the string
  \<open>abc\<close>, on which \<open>JSON.parse\<close> throws and for which \<open>Number\<close> is \<open>NaN\<close>, the envelope
  is \<open>[NaN]\<close>, also after \<open>load\<close>, whose placeholder is not used.
\<close>

theorem unparseable_waveform_counterexample:
  "setWaveformData (\<lambda>s. None) (\<lambda>s. JNaN) (WString ''abc'') = [JNaN]
   \<and> load_waveformData (\<lambda>s. None) (\<lambda>s. JNaN) (Some (WString ''abc'')) Generation_failed
         [JNumber (1 / 2)] = [JNaN]"
  by (simp add: setWaveformData_def load_waveformData_def)

section \<open>Waveform renderer\<close>








end
